theory Spec2Isabelle
  imports Complex_Main
begin

section \<open>Values\<close>

text \<open>
  Array elements and interconnect resistances are Python/NumPy floats. A float is modelled
  as a real number or one of the three special values; finite arithmetic is exact (rounding
  is not modelled). Integers are the finite values that happen to be whole.
\<close>

datatype num = Fin real | PInf | NInf | NaN

text \<open>\<open>x < y\<close> on floats: every comparison with NaN is false.\<close>

fun num_lt :: "num \<Rightarrow> num \<Rightarrow> bool" where
  "num_lt NaN _ = False"
| "num_lt _ NaN = False"
| "num_lt (Fin a) (Fin b) = (a < b)"
| "num_lt (Fin a) PInf = True"
| "num_lt (Fin a) NInf = False"
| "num_lt NInf NInf = False"
| "num_lt NInf _ = True"
| "num_lt PInf _ = False"

text \<open>\<open>x == y\<close> on floats: NaN is equal to nothing, itself included.\<close>

fun num_eq :: "num \<Rightarrow> num \<Rightarrow> bool" where
  "num_eq NaN _ = False"
| "num_eq _ NaN = False"
| "num_eq x y = (x = y)"

text \<open>
  \<open>x / y\<close> as NumPy divides floats: a division by zero is not an exception but gives an
  infinity or NaN (the zero is taken as \<open>+0.0\<close>).
\<close>

fun num_div :: "num \<Rightarrow> num \<Rightarrow> num" where
  "num_div NaN _ = NaN"
| "num_div _ NaN = NaN"
| "num_div (Fin a) (Fin b) =
     (if b \<noteq> 0 then Fin (a / b)
      else if a = 0 then NaN else if 0 < a then PInf else NInf)"
| "num_div (Fin a) _ = Fin 0"
| "num_div PInf (Fin b) = (if 0 \<le> b then PInf else NInf)"
| "num_div NInf (Fin b) = (if 0 \<le> b then NInf else PInf)"
| "num_div _ _ = NaN"

fun num_neg :: "num \<Rightarrow> num" where
  "num_neg (Fin a) = Fin (- a)"
| "num_neg PInf = NInf"
| "num_neg NInf = PInf"
| "num_neg NaN = NaN"

fun num_add :: "num \<Rightarrow> num \<Rightarrow> num" where
  "num_add NaN _ = NaN"
| "num_add _ NaN = NaN"
| "num_add (Fin a) (Fin b) = Fin (a + b)"
| "num_add (Fin a) y = y"
| "num_add x (Fin b) = x"
| "num_add PInf PInf = PInf"
| "num_add NInf NInf = NInf"
| "num_add _ _ = NaN"

definition num_sub :: "num \<Rightarrow> num \<Rightarrow> num" where
  "num_sub x y = num_add x (num_neg y)"

text \<open>
  The Python objects that reach the scalar parameters \<open>r_i\<close>, \<open>r_i_word_line\<close> and
  \<open>r_i_bit_line\<close>. \<open>PStr\<close> stands for an object that is neither a number nor None.
\<close>

datatype pyval = PNone | PBool bool | PInt int | PFloat num | PStr string

text \<open>The numeric value of an \<open>int\<close>, \<open>float\<close> or \<open>bool\<close> (a subclass of \<open>int\<close>).\<close>

fun num_of :: "pyval \<Rightarrow> num option" where
  "num_of (PBool b) = Some (Fin (if b then 1 else 0))"
| "num_of (PInt k) = Some (Fin (of_int k))"
| "num_of (PFloat x) = Some x"
| "num_of _ = None"

fun type_name :: "pyval \<Rightarrow> string" where
  "type_name PNone = ''NoneType''"
| "type_name (PBool _) = ''bool''"
| "type_name (PInt _) = ''int''"
| "type_name (PFloat _) = ''float''"
| "type_name (PStr _) = ''str''"

text \<open>Python \<open>a == b\<close>: numbers compare by value across \<open>int\<close>, \<open>float\<close> and \<open>bool\<close>.\<close>

definition py_eq :: "pyval \<Rightarrow> pyval \<Rightarrow> bool" where
  "py_eq a b =
     (case (num_of a, num_of b) of
        (Some x, Some y) \<Rightarrow> num_eq x y
      | _ \<Rightarrow> a = b)"

section \<open>Exceptions\<close>

datatype exception = TypeError | ValueError | IndexError | NotModelled

text \<open>
  The text of an exception, kept as the template that is formatted and its arguments.
\<close>

datatype message =
    Not_n_dimensional string "nat list" nat
  | Not_numbers string
  | Array_is_empty string
  | Dimension_mismatch nat string nat string
  | Negative_value_in_array string
  | Infinite_value_in_array string
  | Type_not_supported string string
  | Number_is_negative string
  | Short_circuit
  | Zero_resistance_not_supported
  | Not_ordered string
  | Index_out_of_range
  | Slice_step_zero
  | Cannot_broadcast
  | Rank_not_two

datatype error = Raise exception message

fun exception_of :: "error \<Rightarrow> exception" where
  "exception_of (Raise c _) = c"

fun message_of :: "error \<Rightarrow> message" where
  "message_of (Raise _ t) = t"

text \<open>Statements in sequence: the second runs only when the first has not raised.\<close>

definition seq :: "error + unit \<Rightarrow> error + 'a \<Rightarrow> error + 'a" where
  "seq first second = (case first of Inl e \<Rightarrow> Inl e | Inr _ \<Rightarrow> second)"

text \<open>A \<open>for\<close> loop whose body may raise.\<close>

fun for_each :: "('a \<Rightarrow> error + unit) \<Rightarrow> 'a list \<Rightarrow> error + unit" where
  "for_each body [] = Inr ()"
| "for_each body (x # xs) = seq (body x) (for_each body xs)"

section \<open>Arrays\<close>

text \<open>
  An \<open>ndarray\<close>: its shape, whether its dtype is a sub-dtype of \<open>np.number\<close>, and its
  elements in row-major order. The elements of an array whose dtype is not a number are not
  modelled (no check reads them).
\<close>

record 'a ndarray =
  shape :: "nat list"
  is_number :: bool
  flat :: "'a list"

definition ndim :: "'a ndarray \<Rightarrow> nat" where
  "ndim a = length (shape a)"

definition array_size :: "'a ndarray \<Rightarrow> nat" where
  "array_size a = prod_list (shape a)"

definition well_formed :: "'a ndarray \<Rightarrow> bool" where
  "well_formed a = (length (flat a) = array_size a)"

section \<open>check.py\<close>

definition n_dimensional :: "'a ndarray \<Rightarrow> nat list \<Rightarrow> string \<Rightarrow> error + unit" where
  "n_dimensional array n_list name =
     (let d = ndim array
      in if d \<notin> set n_list
         then Inl (Raise TypeError (Not_n_dimensional name n_list d))
         else Inr ())"

definition numeric_array :: "'a ndarray \<Rightarrow> string \<Rightarrow> error + unit" where
  "numeric_array array name =
     (if is_number array = False then Inl (Raise TypeError (Not_numbers name)) else Inr ())"

definition non_empty :: "'a ndarray \<Rightarrow> string \<Rightarrow> error + unit" where
  "non_empty array name =
     (if array_size array = 0 then Inl (Raise ValueError (Array_is_empty name)) else Inr ())"

text \<open>
  \<open>match_shape(**kwargs)\<close>: the keyword arguments in call order, each an array and the
  dimension along which it is matched.
\<close>

fun match_shape_loop ::
  "string \<Rightarrow> nat \<Rightarrow> nat \<Rightarrow> (string \<times> 'a ndarray \<times> nat) list \<Rightarrow> error + unit" where
  "match_shape_loop first_key first_axis d [] = Inr ()"
| "match_shape_loop first_key first_axis d ((key, array, axis) # rest) =
     (if ndim array \<le> axis then Inl (Raise IndexError Index_out_of_range)
      else if shape array ! axis \<noteq> d
      then Inl (Raise ValueError (Dimension_mismatch axis key first_axis first_key))
      else match_shape_loop first_key first_axis d rest)"

fun match_shape :: "(string \<times> 'a ndarray \<times> nat) list \<Rightarrow> error + unit" where
  "match_shape [] = Inl (Raise IndexError Index_out_of_range)"
| "match_shape ((first_key, first_array, first_axis) # rest) =
     (if ndim first_array \<le> first_axis then Inl (Raise IndexError Index_out_of_range)
      else match_shape_loop first_key first_axis (shape first_array ! first_axis)
             ((first_key, first_array, first_axis) # rest))"

definition non_negative_array :: "num ndarray \<Rightarrow> string \<Rightarrow> error + unit" where
  "non_negative_array array name =
     (if list_ex (\<lambda>x. num_lt x (Fin 0)) (flat array)
      then Inl (Raise ValueError (Negative_value_in_array name))
      else Inr ())"

definition non_infinite_array :: "num ndarray \<Rightarrow> string \<Rightarrow> error + unit" where
  "non_infinite_array array name =
     (if list_ex (\<lambda>x. num_eq x PInf) (flat array) \<or> list_ex (\<lambda>x. num_eq x NInf) (flat array)
      then Inl (Raise ValueError (Infinite_value_in_array name))
      else Inr ())"

definition number :: "pyval \<Rightarrow> string \<Rightarrow> error + unit" where
  "number val name =
     (case num_of val of
        None \<Rightarrow> Inl (Raise TypeError (Type_not_supported (type_name val) name))
      | Some _ \<Rightarrow> Inr ())"

text \<open>\<open>value < 0\<close> is itself a TypeError on an object that is not a number.\<close>

definition non_negative_number :: "pyval \<Rightarrow> string \<Rightarrow> error + unit" where
  "non_negative_number val name =
     (case num_of val of
        None \<Rightarrow> Inl (Raise TypeError (Not_ordered (type_name val)))
      | Some x \<Rightarrow>
          if num_lt x (Fin 0) then Inl (Raise ValueError (Number_is_negative name))
          else Inr ())"

text \<open>\<open>0 in resistances\<close>: some element compares equal to zero.\<close>

definition contains_zero :: "num ndarray \<Rightarrow> bool" where
  "contains_zero array = list_ex (\<lambda>x. num_eq x (Fin 0)) (flat array)"

definition short_circuit :: "num ndarray \<Rightarrow> pyval \<Rightarrow> pyval \<Rightarrow> error + unit" where
  "short_circuit resistances r_i_word_line r_i_bit_line =
     (if contains_zero resistances
      then (if py_eq r_i_word_line r_i_bit_line \<and> py_eq r_i_bit_line (PInt 0)
            then Inl (Raise ValueError Short_circuit)
            else Inl (Raise ValueError Zero_resistance_not_supported))
      else Inr ())"

section \<open>Objects of the caller\<close>

text \<open>
  Arrays are objects: the caller passes references, and \<open>np.array(x)\<close> builds a new object
  holding a copy of \<open>x\<close>. The heap maps each address in use to the array stored there;
  \<open>next_free\<close> is the first address not yet in use.
\<close>

record heap =
  cells :: "nat \<Rightarrow> num ndarray"
  next_free :: nat

definition alloc :: "heap \<Rightarrow> num ndarray \<Rightarrow> heap \<times> nat" where
  "alloc h a = (h\<lparr>cells := (cells h)(next_free h := a), next_free := Suc (next_free h)\<rparr>,
                next_free h)"

definition np_array :: "heap \<Rightarrow> nat \<Rightarrow> heap \<times> nat" where
  "np_array h r = alloc h (cells h r)"

text \<open>
  The checks of \<open>crossbar_requirements\<close> read the two new arrays and the two scalars; none
  of them writes.
\<close>

definition crossbar_checks ::
  "num ndarray \<Rightarrow> num ndarray \<Rightarrow> pyval \<Rightarrow> pyval \<Rightarrow> error + unit" where
  "crossbar_checks resistances applied_voltages r_i_word_line r_i_bit_line =
     seq (for_each (\<lambda>(val, name).
            seq (n_dimensional val [2] name)
           (seq (numeric_array val name)
                (non_empty val name)))
          [(resistances, ''resistances''), (applied_voltages, ''applied_voltages'')])
    (seq (non_negative_array resistances ''resistances'')
    (seq (match_shape [(''resistances'', resistances, 0),
                       (''applied_voltages'', applied_voltages, 0)])
    (seq (for_each (\<lambda>(val, name).
            let name = (if py_eq r_i_word_line r_i_bit_line then ''r_i'' else name)
            in seq (number val name) (non_negative_number val name))
          [(r_i_word_line, ''r_i_word_line''), (r_i_bit_line, ''r_i_bit_line'')])
         (short_circuit resistances r_i_word_line r_i_bit_line))))"

text \<open>
  The checks of \<open>crossbar_requirements\<close> that run before \<open>short_circuit\<close>, in their
  order: both loops, \<open>non_negative_array\<close> and \<open>match_shape\<close>.
\<close>

definition checks_before_short_circuit ::
  "num ndarray \<Rightarrow> num ndarray \<Rightarrow> pyval \<Rightarrow> pyval \<Rightarrow> error + unit" where
  "checks_before_short_circuit resistances applied_voltages r_i_word_line r_i_bit_line =
     seq (for_each (\<lambda>(val, name).
            seq (n_dimensional val [2] name)
           (seq (numeric_array val name)
                (non_empty val name)))
          [(resistances, ''resistances''), (applied_voltages, ''applied_voltages'')])
    (seq (non_negative_array resistances ''resistances'')
    (seq (match_shape [(''resistances'', resistances, 0),
                       (''applied_voltages'', applied_voltages, 0)])
         (for_each (\<lambda>(val, name).
            let name = (if py_eq r_i_word_line r_i_bit_line then ''r_i'' else name)
            in seq (number val name) (non_negative_number val name))
          [(r_i_word_line, ''r_i_word_line''), (r_i_bit_line, ''r_i_bit_line'')])))"

definition crossbar_requirements ::
  "heap \<Rightarrow> nat \<Rightarrow> nat \<Rightarrow> pyval \<Rightarrow> pyval \<Rightarrow> heap \<times> (error + nat \<times> nat)" where
  "crossbar_requirements h resistances applied_voltages r_i_word_line r_i_bit_line =
     (let (h1, resistances') = np_array h resistances;
          (h2, applied_voltages') = np_array h1 applied_voltages
      in (h2,
          case crossbar_checks (cells h2 resistances') (cells h2 applied_voltages')
                 r_i_word_line r_i_bit_line of
            Inl e \<Rightarrow> Inl e
          | Inr _ \<Rightarrow> Inr (resistances', applied_voltages')))"

section \<open>NumPy operations on two-dimensional arrays\<close>

text \<open>
  The operations below are NumPy's on arrays of two dimensions; \<open>fill.i\<close> reaches them
  only with such arrays. An element is read at \<open>row * columns + column\<close> of the row-major
  elements, which is in range for every index of a well-formed array.
\<close>

definition nrows :: "'a ndarray \<Rightarrow> nat" where
  "nrows a = shape a ! 0"

definition ncols :: "'a ndarray \<Rightarrow> nat" where
  "ncols a = shape a ! 1"

definition at2 :: "'a ndarray \<Rightarrow> nat \<Rightarrow> nat \<Rightarrow> 'a" where
  "at2 a r c = flat a ! (r * ncols a + c)"

text \<open>The array of the given shape whose element at \<open>(r, c)\<close> is \<open>f r c\<close>.\<close>

definition tabulate2 :: "nat \<Rightarrow> nat \<Rightarrow> (nat \<Rightarrow> nat \<Rightarrow> 'a) \<Rightarrow> 'a ndarray" where
  "tabulate2 rows cols f =
     \<lparr>shape = [rows, cols], is_number = True,
      flat = map (\<lambda>k. f (k div cols) (k mod cols)) [0..<rows * cols]\<rparr>"

definition np_zeros :: "nat \<times> nat \<Rightarrow> num ndarray" where
  "np_zeros s = tabulate2 (fst s) (snd s) (\<lambda>r c. Fin 0)"

text \<open>\<open>a / x\<close> for a scalar \<open>x\<close>: every element is divided, the shape stays.\<close>

definition divide_by_scalar :: "num ndarray \<Rightarrow> num \<Rightarrow> num ndarray" where
  "divide_by_scalar a x = a\<lparr>is_number := True, flat := map (\<lambda>v. num_div v x) (flat a)\<rparr>"

text \<open>
  \<open>np.repeat(a, repeats, axis)\<close>: each row (axis 0) or each column (axis 1) is repeated
  \<open>repeats\<close> times in place.
\<close>

definition np_repeat :: "'a ndarray \<Rightarrow> nat \<Rightarrow> nat \<Rightarrow> 'a ndarray" where
  "np_repeat a repeats axis =
     (if axis = 0
      then tabulate2 (nrows a * repeats) (ncols a) (\<lambda>r c. at2 a (r div repeats) c)
      else tabulate2 (nrows a) (ncols a * repeats) (\<lambda>r c. at2 a r (c div repeats)))"

text \<open>\<open>a.reshape(rows, cols)\<close> keeps the elements in their row-major order.\<close>

definition reshape :: "'a ndarray \<Rightarrow> nat \<times> nat \<Rightarrow> 'a ndarray" where
  "reshape a s = a\<lparr>shape := [fst s, snd s]\<rparr>"

text \<open>
  Broadcasting of one dimension: equal lengths, or one of them 1 (which is then stretched).
\<close>

definition broadcast :: "nat \<Rightarrow> nat \<Rightarrow> nat option" where
  "broadcast a b =
     (if a = b then Some a else if a = 1 then Some b else if b = 1 then Some a else None)"

definition np_divide :: "num ndarray \<Rightarrow> num ndarray \<Rightarrow> error + num ndarray" where
  "np_divide x y =
     (case (broadcast (nrows x) (nrows y), broadcast (ncols x) (ncols y)) of
        (Some rows, Some cols) \<Rightarrow>
          Inr (tabulate2 rows cols (\<lambda>r c.
                 num_div (at2 x (if nrows x = 1 then 0 else r) (if ncols x = 1 then 0 else c))
                         (at2 y (if nrows y = 1 then 0 else r) (if ncols y = 1 then 0 else c))))
      | _ \<Rightarrow> Inl (Raise ValueError Cannot_broadcast))"

text \<open>
  The assignment \<open>a[:stop:step, :] = v\<close>: the rows \<open>0, step, 2 * step, ...\<close> below
  \<open>stop\<close> take the rows of \<open>v\<close>, broadcast to the shape of the slice. A step of zero is a
  ValueError, and so is a \<open>v\<close> that does not broadcast.
\<close>

definition assign_rows ::
  "num ndarray \<Rightarrow> nat \<Rightarrow> nat \<Rightarrow> num ndarray \<Rightarrow> error + num ndarray" where
  "assign_rows a stop step v =
     (if step = 0 then Inl (Raise ValueError Slice_step_zero)
      else
        let count = (min stop (nrows a) + step - 1) div step
        in if (nrows v = count \<or> nrows v = 1) \<and> (ncols v = ncols a \<or> ncols v = 1)
           then Inr (tabulate2 (nrows a) (ncols a) (\<lambda>r c.
                       if r < stop \<and> r mod step = 0
                       then at2 v (if nrows v = 1 then 0 else r div step)
                                  (if ncols v = 1 then 0 else c)
                       else at2 a r c))
           else Inl (Raise ValueError Cannot_broadcast))"

section \<open>computing/fill.py\<close>

text \<open>The named tuple \<open>r_i\<close> of the two interconnect resistances.\<close>

record interconnect =
  word_line :: num
  bit_line :: num

text \<open>\<open>0 in r_i\<close>\<close>

definition zero_in :: "interconnect \<Rightarrow> bool" where
  "zero_in r_i = (num_eq (word_line r_i) (Fin 0) \<or> num_eq (bit_line r_i) (Fin 0))"

text \<open>
  A sparse matrix (\<open>lil_matrix\<close>): its shape and its entries, zero where nothing was stored.
\<close>

record lil_matrix =
  lil_shape :: "nat \<times> nat"
  lil_entries :: "nat \<Rightarrow> nat \<Rightarrow> num"

definition new_lil_matrix :: "nat \<times> nat \<Rightarrow> lil_matrix" where
  "new_lil_matrix s = \<lparr>lil_shape = s, lil_entries = (\<lambda>r c. Fin 0)\<rparr>"

text \<open>
  \<open>fill.g\<close>. The function \<open>kcl.apply\<close> that fills the matrix is not among the sources; it
  is a parameter here.
\<close>

definition fill_g ::
  "(lil_matrix \<Rightarrow> num ndarray \<Rightarrow> interconnect \<Rightarrow> lil_matrix) \<Rightarrow>
   num ndarray \<Rightarrow> interconnect \<Rightarrow> lil_matrix" where
  "fill_g kcl_apply resistances r_i =
     (let g_shape = (if zero_in r_i
                     then (array_size resistances, array_size resistances)
                     else (2 * array_size resistances, 2 * array_size resistances));
          g_matrix = new_lil_matrix g_shape
      in kcl_apply g_matrix resistances r_i)"

text \<open>
  \<open>fill.i\<close>, for the two-dimensional arrays that validation lets through; arrays of another
  rank are outside the model.
\<close>

definition fill_i :: "num ndarray \<Rightarrow> num ndarray \<Rightarrow> interconnect \<Rightarrow> error + num ndarray" where
  "fill_i applied_voltages resistances r_i =
     (if ndim applied_voltages \<noteq> 2 \<or> ndim resistances \<noteq> 2
      then Inl (Raise NotModelled Rank_not_two)
      else
        let i_shape = (if zero_in r_i
                       then (array_size resistances, ncols applied_voltages)
                       else (2 * array_size resistances, ncols applied_voltages));
            i_matrix = np_zeros i_shape
        in if num_lt (Fin 0) (word_line r_i)
           then assign_rows i_matrix (array_size resistances) (ncols resistances)
                  (divide_by_scalar applied_voltages (word_line r_i))
           else np_divide
                  (np_repeat applied_voltages (ncols resistances) 0)
                  (np_repeat (reshape resistances (array_size resistances, 1))
                     (ncols applied_voltages) 1))"

text \<open>\<open>x >= 0\<close>, the condition on an interconnect resistance that validation lets through.\<close>

definition non_negative :: "num \<Rightarrow> bool" where
  "non_negative x = (num_lt (Fin 0) x \<or> num_eq x (Fin 0))"

section \<open>computing/kcl.py\<close>

text \<open>
  Modelled from the spec: \<open>kcl.apply\<close> is not among the sources. Section 4.2: each added
  conductance \<open>g\<close> between two nodes "contributes \<open>+g\<close> to both diagonal entries of the two
  nodes it connects and \<open>-g\<close> to both off-diagonal entries".
\<close>

definition connect :: "num \<Rightarrow> nat \<Rightarrow> nat \<Rightarrow> lil_matrix \<Rightarrow> lil_matrix" where
  "connect g a b G =
     G\<lparr>lil_entries := (\<lambda>r c.
         if (r = a \<and> c = a) \<or> (r = b \<and> c = b) then num_add (lil_entries G r c) g
         else if (r = a \<and> c = b) \<or> (r = b \<and> c = a) then num_sub (lil_entries G r c) g
         else lil_entries G r c)\<rparr>"

text \<open>
  Modelled from the spec: the device branches of the full mode, "conductance \<open>1/R(i,j)\<close>
  between \<open>w(i,j)\<close> and \<open>b(i,j)\<close>", with the word-line node \<open>w(i,j)\<close> at index
  \<open>i * n + j\<close> and the bit-line node \<open>b(i,j)\<close> at index \<open>m * n + i * n + j\<close>. A branch is
  its conductance and the two nodes it joins.
\<close>

definition device_branches :: "num ndarray \<Rightarrow> nat \<Rightarrow> nat \<Rightarrow> (num \<times> nat \<times> nat) list" where
  "device_branches resistances m n =
     concat (map (\<lambda>i. map (\<lambda>j. (num_div (Fin 1) (at2 resistances i j),
                                   i * n + j, m * n + i * n + j)) [0..<n]) [0..<m])"

text \<open>
  Modelled from the spec: the word-line interconnect, a conductance "between \<open>w(i,j)\<close> and
  \<open>w(i,j+1)\<close> for every adjacent pair along a row"; \<open>offset\<close> is the index of the first
  node of the layer.
\<close>

definition word_line_branches :: "num \<Rightarrow> nat \<Rightarrow> nat \<Rightarrow> nat \<Rightarrow> (num \<times> nat \<times> nat) list" where
  "word_line_branches g m n offset =
     concat (map (\<lambda>i. map (\<lambda>j. (g, offset + i * n + j, offset + i * n + j + 1))
                          [0..<n - 1]) [0..<m])"

text \<open>
  Modelled from the spec: the bit-line interconnect, a conductance "between \<open>b(i,j)\<close> and
  \<open>b(i+1,j)\<close> for every adjacent pair along a column"; nothing leaves the node of the last
  row.
\<close>

definition bit_line_branches :: "num \<Rightarrow> nat \<Rightarrow> nat \<Rightarrow> nat \<Rightarrow> (num \<times> nat \<times> nat) list" where
  "bit_line_branches g m n offset =
     concat (map (\<lambda>i. map (\<lambda>j. (g, offset + i * n + j, offset + (i + 1) * n + j))
                          [0..<n]) [0..<m - 1])"

text \<open>
  Modelled from the spec: \<open>kcl.apply\<close>. Full mode: the device branches and both
  interconnects, on two nodes per crosspoint. Reduced mode: one node per crosspoint and
  "only the conductance of the non-ideal line type (whichever of \<open>r_word\<close>/\<open>r_bit\<close> is
  positive) is stenciled between adjacent nodes along that line's direction"; with both
  lines ideal nothing is added. The matrix is filled in place and returned.
\<close>

definition kcl_apply :: "lil_matrix \<Rightarrow> num ndarray \<Rightarrow> interconnect \<Rightarrow> lil_matrix" where
  "kcl_apply g_matrix resistances r_i =
     (if ndim resistances \<noteq> 2 then g_matrix
      else
        let m = nrows resistances; n = ncols resistances;
            g_word = num_div (Fin 1) (word_line r_i);
            g_bit = num_div (Fin 1) (bit_line r_i);
            branches =
              (if zero_in r_i
               then (if num_lt (Fin 0) (word_line r_i)
                     then word_line_branches g_word m n 0 else [])
                  @ (if num_lt (Fin 0) (bit_line r_i)
                     then bit_line_branches g_bit m n 0 else [])
               else device_branches resistances m n
                  @ word_line_branches g_word m n 0
                  @ bit_line_branches g_bit m n (m * n))
        in fold (\<lambda>(g, a, b). connect g a b) branches g_matrix)"

section \<open>compute.py\<close>

text \<open>The keyword arguments that \<open>compute\<close> knows; None is a keyword that was not passed.\<close>

record kwargs =
  node_voltages :: "bool option"
  all_currents :: "bool option"
  verbose :: "nat option"
  show_time :: "bool option"
  gap_size :: "nat option"

definition setdefault :: "'a option \<Rightarrow> 'a \<Rightarrow> 'a option" where
  "setdefault current fallback = (case current of None \<Rightarrow> Some fallback | Some v \<Rightarrow> Some v)"

text \<open>
  \<open>compute\<close>. The function \<open>computing.extract.solution\<close> is not among the sources; it is
  the parameter \<open>solution\<close>, which receives the heap and the references to the two copies
  and may raise. \<open>utils.message\<close> only prints and is left out.
\<close>

definition compute ::
  "(heap \<Rightarrow> nat \<Rightarrow> pyval \<Rightarrow> pyval \<Rightarrow> nat \<Rightarrow> kwargs \<Rightarrow> heap \<times> (error + 'r)) \<Rightarrow>
   heap \<Rightarrow> nat \<Rightarrow> nat \<Rightarrow> pyval \<Rightarrow> pyval \<Rightarrow> pyval \<Rightarrow> kwargs \<Rightarrow> heap \<times> (error + 'r)" where
  "compute solution h applied_voltages resistances r_i r_i_word_line r_i_bit_line kw =
     (let kw = kw\<lparr>node_voltages := setdefault (node_voltages kw) True,
                  all_currents := setdefault (all_currents kw) True,
                  verbose := setdefault (verbose kw) 1,
                  show_time := setdefault (show_time kw) True,
                  gap_size := setdefault (gap_size kw) 5\<rparr>;
          (r_i_word_line, r_i_bit_line) =
             (if r_i \<noteq> PNone then (r_i, r_i) else (r_i_word_line, r_i_bit_line));
          (h, checked) =
             crossbar_requirements h resistances applied_voltages r_i_word_line r_i_bit_line
      in case checked of
           Inl e \<Rightarrow> (h, Inl e)
         | Inr (resistances, applied_voltages) \<Rightarrow>
             solution h resistances r_i_word_line r_i_bit_line applied_voltages kw)"

section \<open>computing/extract.py\<close>

text \<open>
  The shapes of the arrays of a result; None where the documentation of \<open>compute\<close> says
  that None is returned instead of the array.
\<close>

record result_shapes =
  output_currents :: "nat list"
  device_currents :: "nat list option"
  word_line_currents :: "nat list option"
  bit_line_currents :: "nat list option"
  word_line_voltages :: "nat list option"
  bit_line_voltages :: "nat list option"

text \<open>
  Modelled from the spec: \<open>computing.extract.solution\<close> is not among the sources. Section 3
  and section 6: each field of the result is "shaped \<open>m \<times> n\<close> (or \<open>m \<times> n \<times> p\<close> when
  \<open>p > 1\<close>), except output currents, shaped \<open>p \<times> n\<close>"; "a flag may suppress node-voltage
  computation (returns absent instead of computed) and a flag may suppress all branch
  currents except output currents". Only the shapes are modelled, not the values that the
  linear solve gives, nor its failure on a singular system.
\<close>

definition solution ::
  "heap \<Rightarrow> nat \<Rightarrow> pyval \<Rightarrow> pyval \<Rightarrow> nat \<Rightarrow> kwargs \<Rightarrow> heap \<times> (error + result_shapes)" where
  "solution h resistances r_i_word_line r_i_bit_line applied_voltages kw =
     (let m = nrows (cells h resistances);
          n = ncols (cells h resistances);
          p = ncols (cells h applied_voltages);
          full = (if p = 1 then [m, n] else [m, n, p]);
          currents = (if all_currents kw = Some False then None else Some full);
          voltages = (if node_voltages kw = Some False then None else Some full)
      in (h, Inr \<lparr>output_currents = [p, n],
                  device_currents = currents,
                  word_line_currents = currents,
                  bit_line_currents = currents,
                  word_line_voltages = voltages,
                  bit_line_voltages = voltages\<rparr>))"

section \<open>Example inputs\<close>

text \<open>A two-dimensional array of numbers, given by its rows laid end to end.\<close>

definition matrix :: "nat \<Rightarrow> nat \<Rightarrow> 'a list \<Rightarrow> 'a ndarray" where
  "matrix m n xs = \<lparr>shape = [m, n], is_number = True, flat = xs\<rparr>"

text \<open>The heap that holds the given arrays at the addresses 0, 1, ...\<close>

definition heap_of :: "num ndarray list \<Rightarrow> heap" where
  "heap_of xs = \<lparr>cells = (\<lambda>a. if a < length xs then xs ! a else matrix 0 0 []),
                 next_free = length xs\<rparr>"

text \<open>The class of the exception that a call raised, if it raised.\<close>

definition raised :: "error + 'a \<Rightarrow> exception option" where
  "raised r = (case r of Inl e \<Rightarrow> Some (exception_of e) | Inr _ \<Rightarrow> None)"

text \<open>
  The shape that the documentation of \<open>compute\<close> gives for every array of the result but
  the output currents: "\<open>m x n\<close> if \<open>p == 1\<close>, or \<open>m x n x p\<close> if \<open>p > 1\<close>".
\<close>

definition documented_shape :: "nat \<Rightarrow> nat \<Rightarrow> nat \<Rightarrow> nat list" where
  "documented_shape m n p = (if p = 1 then [m, n] else [m, n, p])"

text \<open>A call that passes no keyword argument.\<close>

definition no_kwargs :: kwargs where
  "no_kwargs = \<lparr>node_voltages = None, all_currents = None, verbose = None,
                 show_time = None, gap_size = None\<rparr>"

text \<open>
  A stand-in for \<open>extract.solution\<close> that writes to the two arrays it is given: it empties
  both.
\<close>

definition overwriting_solution ::
  "heap \<Rightarrow> nat \<Rightarrow> pyval \<Rightarrow> pyval \<Rightarrow> nat \<Rightarrow> kwargs \<Rightarrow> heap \<times> (error + unit)" where
  "overwriting_solution h resistances r_i_word_line r_i_bit_line applied_voltages kw =
     (h\<lparr>cells := (cells h)(resistances := matrix 0 0 [], applied_voltages := matrix 0 0 [])\<rparr>,
      Inr ())"

text \<open>
  A call of \<open>compute\<close> with two word lines, two bit lines and three examples: the
  resistances at address 0, the applied voltages at address 1.
\<close>

definition example_heap :: heap where
  "example_heap = heap_of [matrix 2 2 [Fin 100, Fin 200, Fin 300, Fin 400],
                           matrix 2 3 [Fin 5, Fin 6, Fin 7, Fin 8, Fin 9, Fin 10]]"

section \<open>Properties of the validation\<close>

lemma seq_Inr_iff: "seq a b = Inr u \<longleftrightarrow> a = Inr () \<and> b = Inr u"
  by (cases a) (auto simp: seq_def)

lemma snd_crossbar_requirements:
  "snd (crossbar_requirements h rR rA w b) =
     (case crossbar_checks (cells h rR)
             (if rA = next_free h then cells h rR else cells h rA) w b of
        Inl e \<Rightarrow> Inl e
      | Inr _ \<Rightarrow> Inr (next_free h, Suc (next_free h)))"
  by (simp add: crossbar_requirements_def np_array_def alloc_def Let_def split: sum.splits)

lemma fst_crossbar_requirements:
  "fst (crossbar_requirements h rR rA w b) =
     h\<lparr>cells := (cells h)(next_free h := cells h rR,
                  Suc (next_free h) := (if rA = next_free h then cells h rR else cells h rA)),
       next_free := Suc (Suc (next_free h))\<rparr>"
  by (simp add: crossbar_requirements_def np_array_def alloc_def Let_def split: sum.splits)

lemma crossbar_checks_negative:
  assumes "list_ex (\<lambda>x. num_lt x (Fin 0)) (flat R)"
  shows "crossbar_checks R A w b \<noteq> Inr u"
  using assms by (simp add: crossbar_checks_def seq_Inr_iff non_negative_array_def)

lemma crossbar_checks_zero:
  assumes "contains_zero R"
  shows "crossbar_checks R A w b \<noteq> Inr u"
  using assms by (simp add: crossbar_checks_def seq_Inr_iff short_circuit_def)

lemma num_eq_zero: "num_eq x (Fin 0) \<longleftrightarrow> x = Fin 0"
  by (cases x) auto

lemma both_zero_iff:
  "py_eq w b \<and> py_eq b (PInt 0) \<longleftrightarrow> num_of w = Some (Fin 0) \<and> num_of b = Some (Fin 0)"
  by (cases w; cases b) (auto simp: py_eq_def num_eq_zero split: option.splits)

lemma seq_assoc_unit: "seq (seq a b) c = seq a (seq b c)"
  by (cases a) (simp_all add: seq_def)

lemma crossbar_checks_split:
  "crossbar_checks R A w b = seq (checks_before_short_circuit R A w b) (short_circuit R w b)"
  by (simp only: crossbar_checks_def checks_before_short_circuit_def seq_assoc_unit)

text \<open>
  C1 (as amended). For every resistances array with at least one entry equal to zero,
  \<open>short_circuit\<close> raises ValueError: with the short-circuit message when both interconnect
  resistances are zero, with the not-supported message otherwise. The exception class is the
  same in both cases; only the message tells them apart. \<open>crossbar_requirements\<close> always
  aborts on such an array: with the error of the first earlier check that raises, and with
  the error of \<open>short_circuit\<close> when no earlier check raises.
\<close>

theorem short_circuit_zero_resistance:
  assumes "contains_zero resistances"
  shows "(num_of w = Some (Fin 0) \<and> num_of b = Some (Fin 0) \<longrightarrow>
           short_circuit resistances w b = Inl (Raise ValueError Short_circuit))
       \<and> (\<not> (num_of w = Some (Fin 0) \<and> num_of b = Some (Fin 0)) \<longrightarrow>
           short_circuit resistances w b = Inl (Raise ValueError Zero_resistance_not_supported))
       \<and> (cells h r = resistances \<longrightarrow>
           (\<exists>e. snd (crossbar_requirements h r a w b) = Inl e))
       \<and> (cells h r = resistances \<and> a < next_free h \<longrightarrow>
           snd (crossbar_requirements h r a w b) =
             (case checks_before_short_circuit resistances (cells h a) w b of
                Inl e \<Rightarrow> Inl e
              | Inr u \<Rightarrow>
                  Inl (Raise ValueError
                        (if num_of w = Some (Fin 0) \<and> num_of b = Some (Fin 0)
                         then Short_circuit else Zero_resistance_not_supported))))"
proof (intro conjI impI)
  assume "num_of w = Some (Fin 0) \<and> num_of b = Some (Fin 0)"
  then have "py_eq w b \<and> py_eq b (PInt 0)" by (simp add: both_zero_iff)
  with assms show "short_circuit resistances w b = Inl (Raise ValueError Short_circuit)"
    by (simp add: short_circuit_def)
next
  assume "\<not> (num_of w = Some (Fin 0) \<and> num_of b = Some (Fin 0))"
  then have "\<not> (py_eq w b \<and> py_eq b (PInt 0))" by (simp add: both_zero_iff)
  with assms show
    "short_circuit resistances w b = Inl (Raise ValueError Zero_resistance_not_supported)"
    by (simp add: short_circuit_def)
next
  assume "cells h r = resistances"
  with assms have z: "contains_zero (cells h r)" by simp
  show "\<exists>e. snd (crossbar_requirements h r a w b) = Inl e"
    using crossbar_checks_zero [OF z]
    by (auto simp: snd_crossbar_requirements split: sum.splits)
next
  assume a: "cells h r = resistances \<and> a < next_free h"
  have s: "short_circuit resistances w b =
             Inl (Raise ValueError
                   (if num_of w = Some (Fin 0) \<and> num_of b = Some (Fin 0)
                    then Short_circuit else Zero_resistance_not_supported))"
    using assms by (simp add: short_circuit_def both_zero_iff)
  have "snd (crossbar_requirements h r a w b) =
          (case crossbar_checks resistances (cells h a) w b of
             Inl e \<Rightarrow> Inl e
           | Inr u \<Rightarrow> Inr (next_free h, Suc (next_free h)))"
    using a by (simp add: snd_crossbar_requirements)
  also have "\<dots> =
          (case checks_before_short_circuit resistances (cells h a) w b of
             Inl e \<Rightarrow> Inl e
           | Inr u \<Rightarrow>
               Inl (Raise ValueError
                     (if num_of w = Some (Fin 0) \<and> num_of b = Some (Fin 0)
                      then Short_circuit else Zero_resistance_not_supported)))"
    unfolding crossbar_checks_split s
    by (cases "checks_before_short_circuit resistances (cells h a) w b")
       (simp_all add: seq_def)
  finally show "snd (crossbar_requirements h r a w b) =
          (case checks_before_short_circuit resistances (cells h a) w b of
             Inl e \<Rightarrow> Inl e
           | Inr u \<Rightarrow>
               Inl (Raise ValueError
                     (if num_of w = Some (Fin 0) \<and> num_of b = Some (Fin 0)
                      then Short_circuit else Zero_resistance_not_supported)))" .
qed

text \<open>
  The theorem at the array \<open>[[0, 5]]\<close> with the applied voltages \<open>[[1]]\<close>: both
  interconnect resistances zero, then \<open>r_i_word_line = 1\<close> with \<open>r_i_bit_line = 0\<close>. No
  earlier check raises, and \<open>crossbar_requirements\<close> raises the error of \<open>short_circuit\<close>.
\<close>

theorem short_circuit_zero_resistance_witness:
  "contains_zero (matrix 1 2 [Fin 0, Fin 5])
   \<and> short_circuit (matrix 1 2 [Fin 0, Fin 5]) (PInt 0) (PFloat (Fin 0))
       = Inl (Raise ValueError Short_circuit)
   \<and> short_circuit (matrix 1 2 [Fin 0, Fin 5]) (PInt 1) (PInt 0)
       = Inl (Raise ValueError Zero_resistance_not_supported)
   \<and> snd (crossbar_requirements
            (heap_of [matrix 1 2 [Fin 0, Fin 5], matrix 1 1 [Fin 1]]) 0 1
            (PInt 0) (PFloat (Fin 0)))
       = Inl (Raise ValueError Short_circuit)
   \<and> snd (crossbar_requirements
            (heap_of [matrix 1 2 [Fin 0, Fin 5], matrix 1 1 [Fin 1]]) 0 1
            (PInt 1) (PInt 0))
       = Inl (Raise ValueError Zero_resistance_not_supported)"
proof -
  let ?R = "matrix 1 2 [Fin 0, Fin 5]"
  let ?H = "heap_of [?R, matrix 1 1 [Fin 1]]"
  have z: "contains_zero ?R"
    by (simp add: contains_zero_def matrix_def)
  have c: "cells ?H 0 = ?R \<and> 1 < next_free ?H"
    by (simp add: heap_of_def)
  have e0: "checks_before_short_circuit ?R (cells ?H 1) (PInt 0) (PFloat (Fin 0)) = Inr ()"
    by (simp add: checks_before_short_circuit_def heap_of_def matrix_def seq_def
        n_dimensional_def ndim_def numeric_array_def non_empty_def array_size_def
        non_negative_array_def number_def non_negative_number_def py_eq_def)
  have e1: "checks_before_short_circuit ?R (cells ?H 1) (PInt 1) (PInt 0) = Inr ()"
    by (simp add: checks_before_short_circuit_def heap_of_def matrix_def seq_def
        n_dimensional_def ndim_def numeric_array_def non_empty_def array_size_def
        non_negative_array_def number_def non_negative_number_def py_eq_def)
  note both = short_circuit_zero_resistance [OF z, of "PInt 0" "PFloat (Fin 0)" ?H 0 1]
  note one = short_circuit_zero_resistance [OF z, of "PInt 1" "PInt 0" ?H 0 1]
  note q0 = both [THEN conjunct2, THEN conjunct2, THEN conjunct2, THEN mp, OF c]
  note q1 = one [THEN conjunct2, THEN conjunct2, THEN conjunct2, THEN mp, OF c]
  have r0: "snd (crossbar_requirements ?H 0 1 (PInt 0) (PFloat (Fin 0)))
          = Inl (Raise ValueError Short_circuit)"
    unfolding q0 e0 by simp
  have r1: "snd (crossbar_requirements ?H 0 1 (PInt 1) (PInt 0))
          = Inl (Raise ValueError Zero_resistance_not_supported)"
    unfolding q1 e1 by simp
  have s0: "short_circuit ?R (PInt 0) (PFloat (Fin 0)) = Inl (Raise ValueError Short_circuit)"
    using both by simp
  have s1: "short_circuit ?R (PInt 1) (PInt 0)
              = Inl (Raise ValueError Zero_resistance_not_supported)"
    using one by simp
  from z s0 s1 r0 r1 show ?thesis by (intro conjI)
qed

text \<open>
  C1 as stated fails. The two cases are not two kinds of error: on \<open>[[0]]\<close> both raise
  ValueError. And in \<open>crossbar_requirements\<close> an earlier check can raise first: on
  \<open>[[0, -1]]\<close> with both interconnect resistances zero, the error is the one for a
  negative entry.
\<close>

theorem zero_resistance_error_kinds_counterexample:
  "raised (short_circuit (matrix 1 1 [Fin 0]) (PInt 0) (PInt 0)) = Some ValueError
   \<and> raised (short_circuit (matrix 1 1 [Fin 0]) (PInt 1) (PInt 0)) = Some ValueError
   \<and> contains_zero (matrix 1 2 [Fin 0, Fin (- 1)])
   \<and> snd (crossbar_requirements
            (heap_of [matrix 1 2 [Fin 0, Fin (- 1)], matrix 1 1 [Fin 1]]) 0 1
            (PInt 0) (PInt 0))
       = Inl (Raise ValueError (Negative_value_in_array ''resistances''))"
  by (simp add: raised_def short_circuit_def contains_zero_def matrix_def py_eq_def
      snd_crossbar_requirements heap_of_def crossbar_checks_def seq_def
      n_dimensional_def ndim_def numeric_array_def non_empty_def array_size_def
      non_negative_array_def)

text \<open>
  C6 (as amended). Validation rejects a device resistance of negative infinity, as it
  rejects every negative entry: for every resistances array with an entry \<open>-inf\<close>,
  \<open>crossbar_requirements\<close> raises. (An entry \<open>+inf\<close> is not rejected.)
\<close>

theorem crossbar_requirements_negative_infinity:
  assumes "list_ex (\<lambda>x. num_eq x NInf) (flat (cells h resistances))"
  shows "\<exists>e. snd (crossbar_requirements h resistances applied_voltages w b) = Inl e"
proof -
  from assms obtain x where x: "x \<in> set (flat (cells h resistances))" "num_eq x NInf"
    by (auto simp: list_ex_iff)
  from x(2) have "num_lt x (Fin 0)" by (cases x) auto
  with x(1) have "list_ex (\<lambda>x. num_lt x (Fin 0)) (flat (cells h resistances))"
    by (auto simp: list_ex_iff)
  from crossbar_checks_negative [OF this] show ?thesis
    by (auto simp: snd_crossbar_requirements split: sum.splits)
qed

text \<open>The theorem at the resistances \<open>[[3, -inf]]\<close>.\<close>

theorem crossbar_requirements_negative_infinity_witness:
  "list_ex (\<lambda>x. num_eq x NInf) (flat (matrix 1 2 [Fin 3, NInf]))
   \<and> (\<exists>e. snd (crossbar_requirements
               (heap_of [matrix 1 2 [Fin 3, NInf], matrix 1 1 [Fin 1]]) 0 1
               (PInt 1) (PInt 1)) = Inl e)"
proof -
  have h: "list_ex (\<lambda>x. num_eq x NInf)
             (flat (cells (heap_of [matrix 1 2 [Fin 3, NInf], matrix 1 1 [Fin 1]]) 0))"
    by (simp add: heap_of_def matrix_def)
  show ?thesis
    using crossbar_requirements_negative_infinity [OF h, of 1 "PInt 1" "PInt 1"]
    by (simp add: matrix_def)
qed

text \<open>
  C6 as stated fails: the resistances \<open>[[3, +inf]]\<close> with applied voltages \<open>[[1]]\<close> and
  both interconnect resistances 1 pass every check, and the two copies are returned.
\<close>

theorem infinite_resistance_accepted_counterexample:
  "list_ex (\<lambda>x. num_eq x PInf) (flat (matrix 1 2 [Fin 3, PInf]))
   \<and> snd (crossbar_requirements
            (heap_of [matrix 1 2 [Fin 3, PInf], matrix 1 1 [Fin 1]]) 0 1
            (PInt 1) (PInt 1)) = Inr (2, 3)"
  by (simp add: matrix_def
      snd_crossbar_requirements heap_of_def crossbar_checks_def seq_def
      n_dimensional_def ndim_def numeric_array_def non_empty_def array_size_def
      non_negative_array_def number_def non_negative_number_def short_circuit_def
      contains_zero_def py_eq_def)

section \<open>Properties of the assembly\<close>

lemma shape_tabulate2: "shape (tabulate2 rows cols f) = [rows, cols]"
  by (simp add: tabulate2_def)

lemma index_in_range:
  assumes "r < rows" "c < cols"
  shows "r * cols + c < rows * (cols::nat)"
proof -
  have "r * cols + c < r * cols + cols" using assms by simp
  also have "\<dots> = Suc r * cols" by simp
  also have "\<dots> \<le> rows * cols" using assms by (intro mult_le_mono1) simp
  finally show ?thesis .
qed

lemma at2_tabulate2:
  assumes "r < rows" "c < cols"
  shows "at2 (tabulate2 rows cols f) r c = f r c"
proof -
  have "r * cols + c < rows * cols" using assms by (rule index_in_range)
  then show ?thesis using assms
    by (simp add: at2_def tabulate2_def ncols_def)
qed

lemma shape_rows_cols:
  assumes "shape a = [rows, cols]"
  shows "nrows a = rows" and "ncols a = cols" and "ndim a = 2" and "array_size a = rows * cols"
  using assms by (simp_all add: nrows_def ncols_def ndim_def array_size_def)

lemma at2_divide_by_scalar:
  assumes "shape a = [rows, cols]" "well_formed a" "r < rows" "c < cols"
  shows "at2 (divide_by_scalar a x) r c = num_div (at2 a r c) x"
proof -
  have "r * cols + c < rows * cols" using assms(3,4) by (rule index_in_range)
  then show ?thesis using assms(1,2)
    by (simp add: at2_def divide_by_scalar_def ncols_def well_formed_def array_size_def)
qed

lemma divide_by_scalar_shape: "shape (divide_by_scalar a x) = shape a"
  by (simp add: divide_by_scalar_def)

lemma reshape_shape: "shape (reshape a (r, c)) = [r, c]"
  by (simp add: reshape_def)

lemma at2_reshape: "at2 (reshape a (r, c)) i j = flat a ! (i * c + j)"
  by (simp add: at2_def reshape_def ncols_def)

lemma positive_not_zero: "num_lt (Fin 0) x \<Longrightarrow> \<not> num_eq x (Fin 0)"
  by (cases x) auto

lemma slice_count:
  assumes "0 < n"
  shows "(m * n + n - 1) div n = (m::nat)"
proof -
  have "m * n + n - 1 = (n - 1) + m * n" using assms by simp
  moreover have "((n - 1) + m * n) div n = m + (n - 1) div n"
    using assms by (simp only: div_mult_self1 [of n "n - 1" m] neq0_conv)
  moreover have "(n - 1) div n = 0" using assms by simp
  ultimately show ?thesis by simp
qed

lemma assign_rows_value:
  assumes "step \<noteq> 0" and "nrows v = (min stop (nrows a) + step - 1) div step"
    and "ncols v = ncols a"
  shows "assign_rows a stop step v =
           Inr (tabulate2 (nrows a) (ncols a) (\<lambda>r c.
                  if r < stop \<and> r mod step = 0
                  then at2 v (if nrows v = 1 then 0 else r div step)
                             (if ncols v = 1 then 0 else c)
                  else at2 a r c))"
  using assms by (simp add: assign_rows_def Let_def)

lemma np_divide_value:
  assumes "nrows x = nrows y" and "ncols x = ncols y"
  shows "np_divide x y =
           Inr (tabulate2 (nrows x) (ncols x) (\<lambda>r c.
                  num_div (at2 x (if nrows x = 1 then 0 else r) (if ncols x = 1 then 0 else c))
                          (at2 y (if nrows y = 1 then 0 else r) (if ncols y = 1 then 0 else c))))"
  using assms by (simp add: np_divide_def broadcast_def)

text \<open>What \<open>fill.i\<close> returns in each of its two branches, and the shape that \<open>fill.g\<close> asks for.\<close>

lemma fill_i_word_line_positive:
  assumes R: "shape R = [m, n]" and av: "shape av = [m, p]" and n: "0 < n"
    and w: "num_lt (Fin 0) (word_line r)"
    and rows: "rows = (if zero_in r then m * n else 2 * (m * n))"
  shows "fill_i av R r =
           Inr (tabulate2 rows p (\<lambda>row k.
                  if row < m * n \<and> row mod n = 0
                  then at2 (divide_by_scalar av (word_line r))
                         (if nrows (divide_by_scalar av (word_line r)) = 1 then 0
                          else row div n)
                         (if ncols (divide_by_scalar av (word_line r)) = 1 then 0 else k)
                  else at2 (np_zeros (rows, p)) row k))"
proof -
  let ?v = "divide_by_scalar av (word_line r)"
  let ?z = "np_zeros (rows, p)"
  have sv: "shape ?v = [m, p]" using av by (simp add: divide_by_scalar_shape)
  have sz: "shape ?z = [rows, p]" by (simp add: np_zeros_def shape_tabulate2)
  have "fill_i av R r = assign_rows ?z (m * n) n ?v"
    using w rows
    by (simp add: fill_i_def Let_def shape_rows_cols [OF R] shape_rows_cols [OF av])
  also have "\<dots> =
       Inr (tabulate2 (nrows ?z) (ncols ?z) (\<lambda>r c.
              if r < m * n \<and> r mod n = 0
              then at2 ?v (if nrows ?v = 1 then 0 else r div n)
                          (if ncols ?v = 1 then 0 else c)
              else at2 ?z r c))"
  proof (rule assign_rows_value)
    show "n \<noteq> 0" using n by simp
    have "m * n \<le> rows" using rows by simp
    then have "min (m * n) (nrows ?z) = m * n"
      unfolding shape_rows_cols(1) [OF sz] by simp
    then show "nrows ?v = (min (m * n) (nrows ?z) + n - 1) div n"
      using n by (simp only: shape_rows_cols [OF sv] slice_count)
    show "ncols ?v = ncols ?z"
      by (simp only: shape_rows_cols [OF sv] shape_rows_cols [OF sz])
  qed
  finally show ?thesis by (simp only: shape_rows_cols [OF sz])
qed

lemma fill_i_word_line_not_positive:
  assumes R: "shape R = [m, n]" and av: "shape av = [m, p]"
    and w: "\<not> num_lt (Fin 0) (word_line r)"
    and X: "X = np_repeat av n 0" and Y: "Y = np_repeat (reshape R (m * n, 1)) p 1"
  shows "shape X = [m * n, p]" and "shape Y = [m * n, p]"
    and "fill_i av R r =
           Inr (tabulate2 (m * n) p (\<lambda>row k.
                  num_div (at2 X (if nrows X = 1 then 0 else row) (if ncols X = 1 then 0 else k))
                          (at2 Y (if nrows Y = 1 then 0 else row) (if ncols Y = 1 then 0 else k))))"
proof -
  show sX: "shape X = [m * n, p]"
    by (simp add: X np_repeat_def shape_tabulate2 shape_rows_cols [OF av])
  show sY: "shape Y = [m * n, p]"
    by (simp add: Y np_repeat_def shape_tabulate2 shape_rows_cols [OF reshape_shape])
  have "fill_i av R r = np_divide X Y"
    using w
    by (simp add: fill_i_def Let_def X Y shape_rows_cols [OF R] shape_rows_cols [OF av])
  also have "\<dots> =
       Inr (tabulate2 (nrows X) (ncols X) (\<lambda>r c.
              num_div (at2 X (if nrows X = 1 then 0 else r) (if ncols X = 1 then 0 else c))
                      (at2 Y (if nrows Y = 1 then 0 else r) (if ncols Y = 1 then 0 else c))))"
  proof (rule np_divide_value)
    show "nrows X = nrows Y" by (simp only: shape_rows_cols [OF sX] shape_rows_cols [OF sY])
    show "ncols X = ncols Y" by (simp only: shape_rows_cols [OF sX] shape_rows_cols [OF sY])
  qed
  finally show "fill_i av R r =
           Inr (tabulate2 (m * n) p (\<lambda>row k.
                  num_div (at2 X (if nrows X = 1 then 0 else row) (if ncols X = 1 then 0 else k))
                          (at2 Y (if nrows Y = 1 then 0 else row) (if ncols Y = 1 then 0 else k))))"
    by (simp only: shape_rows_cols(1,2) [OF sX])
qed

lemma fill_g_shape:
  assumes "shape R = [m, n]" and "\<forall>G A r. lil_shape (kcl G A r) = lil_shape G"
  shows "lil_shape (fill_g kcl R r) =
           (if zero_in r then (m * n, m * n) else (2 * (m * n), 2 * (m * n)))"
  using assms by (simp add: fill_g_def Let_def new_lil_matrix_def shape_rows_cols(4))

lemma zero_in_iff: "zero_in r \<longleftrightarrow> word_line r = Fin 0 \<or> bit_line r = Fin 0"
  by (simp add: zero_in_def num_eq_zero)

lemma connect_shape: "lil_shape (connect g a b G) = lil_shape G"
  by (simp add: connect_def)

lemma fold_connect_shape:
  "lil_shape (fold (\<lambda>(g, a, b). connect g a b) branches G) = lil_shape G"
  by (induction branches arbitrary: G) (auto simp: connect_shape)

lemma kcl_apply_shape: "lil_shape (kcl_apply G A r) = lil_shape G"
  by (simp add: kcl_apply_def Let_def fold_connect_shape)

lemma connect_entries:
  "lil_entries (connect g a b G) r c =
     (if (r = a \<and> c = a) \<or> (r = b \<and> c = b) then num_add (lil_entries G r c) g
      else if (r = a \<and> c = b) \<or> (r = b \<and> c = a) then num_sub (lil_entries G r c) g
      else lil_entries G r c)"
  by (simp add: connect_def)

lemma connect_symmetric:
  assumes "\<And>r c. lil_entries G r c = lil_entries G c r"
  shows "lil_entries (connect g a b G) r c = lil_entries (connect g a b G) c r"
proof -
  have e: "lil_entries G r c = lil_entries G c r" by (rule assms)
  have d: "((r = a \<and> c = a) \<or> (r = b \<and> c = b)) = ((c = a \<and> r = a) \<or> (c = b \<and> r = b))"
    by blast
  have x: "((r = a \<and> c = b) \<or> (r = b \<and> c = a)) = ((c = a \<and> r = b) \<or> (c = b \<and> r = a))"
    by blast
  show ?thesis
    unfolding connect_entries [of g a b G r c] connect_entries [of g a b G c r] e d x ..
qed

lemma fold_connect_symmetric:
  assumes "\<And>r c. lil_entries G r c = lil_entries G c r"
  shows "lil_entries (fold (\<lambda>(g, a, b). connect g a b) branches G) r c
       = lil_entries (fold (\<lambda>(g, a, b). connect g a b) branches G) c r"
  using assms
proof (induction branches arbitrary: G r c)
  case Nil
  show ?case unfolding fold_simps by (rule Nil.prems)
next
  case (Cons x branches)
  obtain g a b where x: "x = (g, a, b)" by (cases x)
  have s: "\<And>r c. lil_entries (connect g a b G) r c = lil_entries (connect g a b G) c r"
    using Cons.prems by (rule connect_symmetric)
  have "fold (\<lambda>(g, a, b). connect g a b) (x # branches) G
        = fold (\<lambda>(g, a, b). connect g a b) branches (connect g a b G)"
    by (simp add: x)
  then show ?case using Cons.IH [OF s] by (simp only:)
qed

lemma kcl_apply_symmetric:
  assumes "\<And>r c. lil_entries G r c = lil_entries G c r"
  shows "lil_entries (kcl_apply G A r) a b = lil_entries (kcl_apply G A r) b a"
proof (cases "ndim A \<noteq> 2")
  case True
  show ?thesis
    unfolding kcl_apply_def if_P [OF True] by (rule assms)
next
  case False
  show ?thesis
    unfolding kcl_apply_def Let_def if_not_P [OF False]
    by (rule fold_connect_symmetric) (rule assms)
qed

text \<open>
  C2. The matrix that \<open>fill.g\<close> returns is square: of size \<open>2 * m * n\<close> when both
  interconnect resistances are positive, of size \<open>m * n\<close> when one of them is zero. This
  holds for every \<open>kcl.apply\<close> that returns a matrix of the shape it was given.
\<close>

theorem fill_g_size:
  assumes "shape R = [m, n]" and "\<forall>G A r. lil_shape (kcl G A r) = lil_shape G"
  shows "(num_lt (Fin 0) (word_line r) \<and> num_lt (Fin 0) (bit_line r) \<longrightarrow>
            lil_shape (fill_g kcl R r) = (2 * (m * n), 2 * (m * n)))
       \<and> (word_line r = Fin 0 \<or> bit_line r = Fin 0 \<longrightarrow>
            lil_shape (fill_g kcl R r) = (m * n, m * n))"
proof (intro conjI impI)
  assume "num_lt (Fin 0) (word_line r) \<and> num_lt (Fin 0) (bit_line r)"
  then have "\<not> zero_in r" by (simp add: zero_in_def positive_not_zero)
  then show "lil_shape (fill_g kcl R r) = (2 * (m * n), 2 * (m * n))"
    by (simp add: fill_g_shape [OF assms])
next
  assume "word_line r = Fin 0 \<or> bit_line r = Fin 0"
  then have "zero_in r" by (simp add: zero_in_iff)
  then show "lil_shape (fill_g kcl R r) = (m * n, m * n)"
    by (simp add: fill_g_shape [OF assms])
qed

text \<open>
  The theorem at a \<open>2 \<times> 3\<close> array, with \<open>kcl.apply\<close> as the specification describes it:
  12 unknowns in full mode, 6 with an ideal word line.
\<close>

theorem fill_g_size_witness:
  "lil_shape (fill_g kcl_apply (matrix 2 3 [Fin 1, Fin 2, Fin 3, Fin 4, Fin 5, Fin 6])
               \<lparr>word_line = Fin 1, bit_line = Fin 2\<rparr>) = (12, 12)
   \<and> lil_shape (fill_g kcl_apply (matrix 2 3 [Fin 1, Fin 2, Fin 3, Fin 4, Fin 5, Fin 6])
               \<lparr>word_line = Fin 0, bit_line = Fin 2\<rparr>) = (6, 6)"
proof -
  have s: "shape (matrix 2 3 [Fin 1, Fin 2, Fin 3, Fin 4, Fin 5, Fin 6 :: num]) = [2, 3]"
    by (simp add: matrix_def)
  have k: "\<forall>G A r. lil_shape (kcl_apply G A r) = lil_shape G"
    by (simp add: kcl_apply_shape)
  show ?thesis
    using fill_g_size [OF s k, of "\<lparr>word_line = Fin 1, bit_line = Fin 2\<rparr>"]
      fill_g_size [OF s k, of "\<lparr>word_line = Fin 0, bit_line = Fin 2\<rparr>"]
    by simp
qed

text \<open>
  C5. The matrix that \<open>fill.g\<close> returns is symmetric, \<open>G[a,b] = G[b,a]\<close> for every pair
  of indices, with \<open>kcl.apply\<close> as the specification describes it.
\<close>

theorem fill_g_symmetric:
  "lil_entries (fill_g kcl_apply R r) a b = lil_entries (fill_g kcl_apply R r) b a"
  unfolding fill_g_def Let_def
  by (rule kcl_apply_symmetric) (simp add: new_lil_matrix_def)

text \<open>The theorem at a \<open>2 \<times> 2\<close> array, for the device branch of the first crosspoint.\<close>

theorem fill_g_symmetric_witness:
  "lil_entries (fill_g kcl_apply (matrix 2 2 [Fin 1, Fin 2, Fin 4, Fin 5])
                  \<lparr>word_line = Fin 1, bit_line = Fin 2\<rparr>) 0 4
   = lil_entries (fill_g kcl_apply (matrix 2 2 [Fin 1, Fin 2, Fin 4, Fin 5])
                  \<lparr>word_line = Fin 1, bit_line = Fin 2\<rparr>) 4 0"
  by (rule fill_g_symmetric)

text \<open>
  C3. In full mode the matrix that \<open>fill.i\<close> returns has \<open>2 * m * n\<close> rows and \<open>p\<close>
  columns; its entry at row \<open>i * n\<close> (the leftmost node of word line \<open>i\<close>) and column
  \<open>k\<close> is \<open>applied_voltages[i,k] / r_word\<close>, and every other entry is zero.
\<close>

theorem fill_i_full_mode:
  assumes R: "shape R = [m, n]" and av: "shape av = [m, p]" and wf: "well_formed av"
    and n: "0 < n"
    and w: "num_lt (Fin 0) (word_line r)" and b: "num_lt (Fin 0) (bit_line r)"
  shows "\<exists>I. fill_i av R r = Inr I \<and> shape I = [2 * (m * n), p] \<and>
           (\<forall>row < 2 * (m * n). \<forall>k < p.
              at2 I row k =
                (if row < m * n \<and> row mod n = 0
                 then num_div (at2 av (row div n) k) (word_line r)
                 else Fin 0))"
proof -
  let ?v = "divide_by_scalar av (word_line r)"
  let ?z = "np_zeros (2 * (m * n), p)"
  let ?I = "tabulate2 (2 * (m * n)) p (\<lambda>row k.
                  if row < m * n \<and> row mod n = 0
                  then at2 ?v (if nrows ?v = 1 then 0 else row div n)
                              (if ncols ?v = 1 then 0 else k)
                  else at2 ?z row k)"
  have z: "\<not> zero_in r" using w b by (simp add: zero_in_def positive_not_zero)
  have sv: "shape ?v = [m, p]" using av by (simp add: divide_by_scalar_shape)
  have I: "fill_i av R r = Inr ?I"
    using fill_i_word_line_positive [OF R av n w, of "2 * (m * n)"] z by simp
  have "at2 ?I row k =
          (if row < m * n \<and> row mod n = 0
           then num_div (at2 av (row div n) k) (word_line r) else Fin 0)"
    if row: "row < 2 * (m * n)" and k: "k < p" for row k
  proof (cases "row < m * n \<and> row mod n = 0")
    case True
    then have d: "row div n < m" using n by (simp add: less_mult_imp_div_less)
    have r0: "(if nrows ?v = 1 then 0 else row div n) = row div n"
      unfolding shape_rows_cols(1) [OF sv] using d by auto
    have k0: "(if ncols ?v = 1 then 0 else k) = k"
      unfolding shape_rows_cols(2) [OF sv] using k by auto
    have "at2 ?I row k =
            (if row < m * n \<and> row mod n = 0
             then at2 ?v (if nrows ?v = 1 then 0 else row div n)
                         (if ncols ?v = 1 then 0 else k)
             else at2 ?z row k)"
      by (rule at2_tabulate2 [OF row k])
    also have "\<dots> = at2 ?v (row div n) k"
      unfolding r0 k0 using True by simp
    also have "\<dots> = num_div (at2 av (row div n) k) (word_line r)"
      using av wf d k by (rule at2_divide_by_scalar)
    finally show ?thesis using True by simp
  next
    case False
    have "at2 ?I row k =
            (if row < m * n \<and> row mod n = 0
             then at2 ?v (if nrows ?v = 1 then 0 else row div n)
                         (if ncols ?v = 1 then 0 else k)
             else at2 ?z row k)"
      by (rule at2_tabulate2 [OF row k])
    also have "\<dots> = at2 ?z row k"
      by (simp only: False if_False)
    also have "\<dots> = Fin 0"
      using row k by (simp add: np_zeros_def at2_tabulate2)
    finally have e: "at2 ?I row k = Fin 0" .
    show ?thesis unfolding e if_not_P [OF False] ..
  qed
  then show ?thesis using I by (simp add: shape_tabulate2)
qed

text \<open>
  The theorem at two word lines and two bit lines, voltages 3 and 4, \<open>r_word = 2\<close>: the
  rows 0 and 2 hold \<open>3/2\<close> and \<open>2\<close>.
\<close>

theorem fill_i_full_mode_witness:
  "\<exists>I. fill_i (matrix 2 1 [Fin 3, Fin 4]) (matrix 2 2 [Fin 1, Fin 2, Fin 5, Fin 6])
          \<lparr>word_line = Fin 2, bit_line = Fin 1\<rparr> = Inr I
       \<and> shape I = [8, 1]
       \<and> at2 I 0 0 = Fin (3 / 2) \<and> at2 I 1 0 = Fin 0 \<and> at2 I 2 0 = Fin 2
       \<and> at2 I 3 0 = Fin 0 \<and> at2 I 4 0 = Fin 0 \<and> at2 I 7 0 = Fin 0"
proof -
  let ?av = "matrix 2 1 [Fin 3, Fin 4]"
  let ?R = "matrix 2 2 [Fin 1, Fin 2, Fin 5, Fin 6 :: num]"
  let ?r = "\<lparr>word_line = Fin 2, bit_line = Fin 1\<rparr>"
  have R: "shape ?R = [2, 2]" and av: "shape ?av = [2, 1]" and wf: "well_formed ?av"
    by (simp_all add: matrix_def well_formed_def array_size_def)
  have n: "(0::nat) < 2" and w: "num_lt (Fin 0) (word_line ?r)"
    and b: "num_lt (Fin 0) (bit_line ?r)"
    by simp_all
  from fill_i_full_mode [OF R av wf n w b] obtain I where
    I: "fill_i ?av ?R ?r = Inr I" "shape I = [2 * (2 * 2), 1]" and
    e: "\<And>row k. row < 2 * (2 * 2) \<Longrightarrow> k < 1 \<Longrightarrow>
          at2 I row k = (if row < 2 * 2 \<and> row mod 2 = 0
                          then num_div (at2 ?av (row div 2) k) (word_line ?r) else Fin 0)"
    by blast
  have "at2 I 0 0 = Fin (3 / 2)" using e [of 0 0] by (simp add: at2_def matrix_def ncols_def)
  moreover have "at2 I 1 0 = Fin 0" using e [of 1 0] by simp
  moreover have "at2 I 2 0 = Fin 2" using e [of 2 0] by (simp add: at2_def matrix_def ncols_def)
  moreover have "at2 I 3 0 = Fin 0" using e [of 3 0] by simp
  moreover have "at2 I 4 0 = Fin 0" using e [of 4 0] by simp
  moreover have "at2 I 7 0 = Fin 0" using e [of 7 0] by simp
  ultimately show ?thesis using I by simp
qed

text \<open>
  C4. With an ideal word line (\<open>r_word = 0\<close>) the matrix that \<open>fill.i\<close> returns has, at
  row \<open>i * n + j\<close> and column \<open>k\<close>, the entry \<open>applied_voltages[i,k] / R(i,j)\<close>, for
  every crosspoint \<open>(i,j)\<close> and every example \<open>k\<close>.
\<close>

theorem fill_i_ideal_word_line:
  assumes R: "shape R = [m, n]" and av: "shape av = [m, p]"
    and w: "word_line r = Fin 0"
  shows "\<exists>I. fill_i av R r = Inr I \<and> shape I = [m * n, p] \<and>
           (\<forall>i < m. \<forall>j < n. \<forall>k < p.
              at2 I (i * n + j) k = num_div (at2 av i k) (at2 R i j))"
proof -
  define X where "X = np_repeat av n 0"
  define Y where "Y = np_repeat (reshape R (m * n, 1)) p 1"
  let ?I = "tabulate2 (m * n) p (\<lambda>row k.
              num_div (at2 X (if nrows X = 1 then 0 else row) (if ncols X = 1 then 0 else k))
                      (at2 Y (if nrows Y = 1 then 0 else row) (if ncols Y = 1 then 0 else k)))"
  have nw: "\<not> num_lt (Fin 0) (word_line r)" using w by simp
  note facts = fill_i_word_line_not_positive [OF R av nw X_def Y_def]
  have sX: "shape X = [m * n, p]" and sY: "shape Y = [m * n, p]"
    and I: "fill_i av R r = Inr ?I"
    by (rule facts)+
  have "at2 ?I (i * n + j) k = num_div (at2 av i k) (at2 R i j)"
    if i: "i < m" and j: "j < n" and k: "k < p" for i j k
  proof -
    have row: "i * n + j < m * n" using i j by (rule index_in_range)
    have rX: "(if nrows X = 1 then 0 else i * n + j) = i * n + j"
      unfolding shape_rows_cols(1) [OF sX] using row by auto
    have kX: "(if ncols X = 1 then 0 else k) = k"
      unfolding shape_rows_cols(2) [OF sX] using k by auto
    have rY: "(if nrows Y = 1 then 0 else i * n + j) = i * n + j"
      unfolding shape_rows_cols(1) [OF sY] using row by auto
    have kY: "(if ncols Y = 1 then 0 else k) = k"
      unfolding shape_rows_cols(2) [OF sY] using k by auto
    have "at2 X (i * n + j) k = at2 av ((i * n + j) div n) k"
      using row k by (simp add: X_def np_repeat_def shape_rows_cols [OF av] at2_tabulate2)
    then have X: "at2 X (i * n + j) k = at2 av i k" using j by simp
    have "at2 Y (i * n + j) k = at2 (reshape R (m * n, 1)) (i * n + j) (k div p)"
      using row k
      by (simp add: Y_def np_repeat_def shape_rows_cols [OF reshape_shape] at2_tabulate2)
    also have "\<dots> = flat R ! (i * n + j)"
      using k by (simp add: at2_reshape)
    also have "\<dots> = at2 R i j"
      by (simp add: at2_def shape_rows_cols [OF R])
    finally have Y: "at2 Y (i * n + j) k = at2 R i j" .
    have "at2 ?I (i * n + j) k =
            num_div (at2 X (i * n + j) k) (at2 Y (i * n + j) k)"
      by (simp only: at2_tabulate2 [OF row k] rX kX rY kY)
    then show ?thesis by (simp only: X Y)
  qed
  then show ?thesis using I by (simp add: shape_tabulate2)
qed

text \<open>
  The theorem at the resistances \<open>[[100, 200]]\<close> and the voltage 5: the currents are
  \<open>5/100\<close> and \<open>5/200\<close>.
\<close>

theorem fill_i_ideal_word_line_witness:
  "\<exists>I. fill_i (matrix 1 1 [Fin 5]) (matrix 1 2 [Fin 100, Fin 200])
          \<lparr>word_line = Fin 0, bit_line = Fin 1\<rparr> = Inr I
       \<and> shape I = [2, 1]
       \<and> at2 I 0 0 = Fin (5 / 100) \<and> at2 I 1 0 = Fin (5 / 200)"
proof -
  let ?av = "matrix 1 1 [Fin 5]"
  let ?R = "matrix 1 2 [Fin 100, Fin 200 :: num]"
  let ?r = "\<lparr>word_line = Fin 0, bit_line = Fin 1\<rparr>"
  have R: "shape ?R = [1, 2]" and av: "shape ?av = [1, 1]"
    by (simp_all add: matrix_def)
  have w: "word_line ?r = Fin 0" by simp
  from fill_i_ideal_word_line [OF R av w] obtain I where
    I: "fill_i ?av ?R ?r = Inr I \<and> shape I = [1 * 2, 1] \<and>
        (\<forall>i<1. \<forall>j<2. \<forall>k<1. at2 I (i * 2 + j) k = num_div (at2 ?av i k) (at2 ?R i j))" ..
  then have e: "\<forall>i<1. \<forall>j<2. \<forall>k<1. at2 I (i * 2 + j) k = num_div (at2 ?av i k) (at2 ?R i j)"
    by (elim conjE)
  have a: "at2 ?av 0 0 = Fin 5" "at2 ?R 0 0 = Fin 100" "at2 ?R 0 1 = Fin 200"
    by (simp_all add: at2_def matrix_def ncols_def)
  have "at2 I (0 * 2 + 0) 0 = num_div (at2 ?av 0 0) (at2 ?R 0 0)"
    using e by (elim allE [of _ 0] impE) simp_all
  then have e0: "at2 I 0 0 = Fin (5 / 100)" unfolding a by simp
  have "at2 I (0 * 2 + 1) 0 = num_div (at2 ?av 0 0) (at2 ?R 0 1)"
    using e [rule_format, of 0 1 0] by simp
  then have e1: "at2 I 1 0 = Fin (5 / 200)" unfolding a by simp
  from I have "fill_i ?av ?R ?r = Inr I" "shape I = [2, 1]" by simp_all
  with e0 e1 show ?thesis by blast
qed

text \<open>
  C7. For a valid input the matrix that \<open>fill.i\<close> returns has as many rows as the matrix
  that \<open>fill.g\<close> returns (\<open>m * n\<close> when an interconnect resistance is zero, \<open>2 * m * n\<close>
  otherwise) and \<open>p\<close> columns.
\<close>

theorem fill_i_rows_match_fill_g:
  assumes R: "shape R = [m, n]" and av: "shape av = [m, p]" and n: "0 < n"
    and w: "non_negative (word_line r)"
    and kcl: "\<forall>G A r. lil_shape (kcl G A r) = lil_shape G"
  shows "\<exists>I. fill_i av R r = Inr I \<and>
              shape I = [fst (lil_shape (fill_g kcl R r)), p] \<and>
              fst (lil_shape (fill_g kcl R r)) =
                (if word_line r = Fin 0 \<or> bit_line r = Fin 0 then m * n else 2 * (m * n))"
proof -
  let ?rows = "if zero_in r then m * n else 2 * (m * n)"
  have G: "fst (lil_shape (fill_g kcl R r)) = ?rows"
    by (simp add: fill_g_shape [OF R kcl])
  have "\<exists>I. fill_i av R r = Inr I \<and> shape I = [?rows, p]"
  proof (cases "num_lt (Fin 0) (word_line r)")
    case True
    show ?thesis
      unfolding fill_i_word_line_positive [OF R av n True refl]
      by (simp add: shape_tabulate2)
  next
    case False
    with w have "word_line r = Fin 0" by (simp add: non_negative_def num_eq_zero)
    then have z: "zero_in r" by (simp add: zero_in_iff)
    show ?thesis
      unfolding fill_i_word_line_not_positive(3) [OF R av False refl refl]
      using z by (simp add: shape_tabulate2)
  qed
  then show ?thesis unfolding G by (simp add: zero_in_iff)
qed

text \<open>The theorem at a \<open>2 \<times> 2\<close> array with three examples, in full mode.\<close>

theorem fill_i_rows_match_fill_g_witness:
  "(\<exists>I. fill_i (matrix 2 3 [Fin 1, Fin 2, Fin 3, Fin 4, Fin 5, Fin 6])
            (matrix 2 2 [Fin 1, Fin 2, Fin 5, Fin 6])
            \<lparr>word_line = Fin 2, bit_line = Fin 1\<rparr> = Inr I \<and> shape I = [8, 3])
   \<and> fst (lil_shape (fill_g kcl_apply (matrix 2 2 [Fin 1, Fin 2, Fin 5, Fin 6])
            \<lparr>word_line = Fin 2, bit_line = Fin 1\<rparr>)) = 8"
proof -
  let ?av = "matrix 2 3 [Fin 1, Fin 2, Fin 3, Fin 4, Fin 5, Fin 6 :: num]"
  let ?R = "matrix 2 2 [Fin 1, Fin 2, Fin 5, Fin 6 :: num]"
  let ?r = "\<lparr>word_line = Fin 2, bit_line = Fin 1\<rparr>"
  have R: "shape ?R = [2, 2]" and av: "shape ?av = [2, 3]"
    by (simp_all add: matrix_def)
  have n: "(0::nat) < 2" and w: "non_negative (word_line ?r)"
    by (simp_all add: non_negative_def)
  have k: "\<forall>G A r. lil_shape (kcl_apply G A r) = lil_shape G"
    by (simp add: kcl_apply_shape)
  from fill_i_rows_match_fill_g [OF R av n w k] obtain I where
    I: "fill_i ?av ?R ?r = Inr I"
       "shape I = [fst (lil_shape (fill_g kcl_apply ?R ?r)), 3]"
       "fst (lil_shape (fill_g kcl_apply ?R ?r)) = 8"
    by auto
  from I(2) have "shape I = [8, 3]" unfolding I(3) .
  with I(1) I(3) show ?thesis by blast
qed

section \<open>Properties of compute\<close>

lemma compute_unfold:
  "compute sol h av R r_i w b kw =
     (case snd (crossbar_requirements h R av
                  (if r_i \<noteq> PNone then r_i else w) (if r_i \<noteq> PNone then r_i else b)) of
        Inl e \<Rightarrow>
          (fst (crossbar_requirements h R av
                  (if r_i \<noteq> PNone then r_i else w) (if r_i \<noteq> PNone then r_i else b)), Inl e)
      | Inr (R', av') \<Rightarrow>
          sol (fst (crossbar_requirements h R av
                  (if r_i \<noteq> PNone then r_i else w) (if r_i \<noteq> PNone then r_i else b)))
            R' (if r_i \<noteq> PNone then r_i else w) (if r_i \<noteq> PNone then r_i else b) av'
            (kw\<lparr>node_voltages := setdefault (node_voltages kw) True,
                all_currents := setdefault (all_currents kw) True,
                verbose := setdefault (verbose kw) 1,
                show_time := setdefault (show_time kw) True,
                gap_size := setdefault (gap_size kw) 5\<rparr>))"
  by (simp add: compute_def Let_def case_prod_unfold split: sum.splits)

lemma n_dimensional_Inr: "n_dimensional a ns name = Inr u \<longleftrightarrow> ndim a \<in> set ns"
  by (simp add: n_dimensional_def Let_def)

lemma non_empty_Inr: "non_empty a name = Inr u \<longleftrightarrow> array_size a \<noteq> 0"
  by (simp add: non_empty_def)

lemma crossbar_checks_Inr:
  assumes "crossbar_checks R A w b = Inr u"
  shows "ndim R = 2 \<and> ndim A = 2 \<and> array_size R \<noteq> 0 \<and> array_size A \<noteq> 0
         \<and> shape A ! 0 = shape R ! 0"
  using assms
  by (auto simp: crossbar_checks_def seq_Inr_iff n_dimensional_Inr non_empty_Inr
      split: if_splits)

lemma crossbar_checks_shapes:
  assumes "crossbar_checks R A w b = Inr u"
  shows "\<exists>m n p. shape R = [m, n] \<and> shape A = [m, p] \<and> 0 < m \<and> 0 < n \<and> 0 < p"
proof -
  note c = crossbar_checks_Inr [OF assms]
  from c obtain m n m' p where s: "shape R = [m, n]" "shape A = [m', p]"
    by (auto simp: ndim_def length_Suc_conv numeral_2_eq_2)
  from c s have "m' = m" by simp
  moreover from c s have "0 < m" "0 < n" "0 < m'" "0 < p" by (auto simp: array_size_def)
  ultimately show ?thesis using s by blast
qed

lemma example_heap_cells:
  "cells example_heap 0 = matrix 2 2 [Fin 100, Fin 200, Fin 300, Fin 400]"
  "cells example_heap (Suc 0) = matrix 2 3 [Fin 5, Fin 6, Fin 7, Fin 8, Fin 9, Fin 10]"
  "next_free example_heap = 2"
  by (simp_all add: example_heap_def heap_of_def)

lemma example_checks:
  "crossbar_checks (matrix 2 2 [Fin 100, Fin 200, Fin 300, Fin 400])
     (matrix 2 3 [Fin 5, Fin 6, Fin 7, Fin 8, Fin 9, Fin 10]) (PInt 1) (PInt 1) = Inr ()"
  by (simp add: matrix_def crossbar_checks_def seq_def
      n_dimensional_def ndim_def numeric_array_def non_empty_def array_size_def
      non_negative_array_def number_def non_negative_number_def short_circuit_def
      contains_zero_def py_eq_def)

lemma example_checked:
  "snd (crossbar_requirements example_heap 0 (Suc 0) (PInt 1) (PInt 1)) = Inr (2, 3)"
  by (simp add: snd_crossbar_requirements example_heap_cells example_checks)

lemma example_compute:
  "snd (compute solution example_heap (Suc 0) 0 (PInt 1) w b kw) =
     Inr \<lparr>output_currents = [3, 2],
          device_currents = (if all_currents kw = Some False then None else Some [2, 2, 3]),
          word_line_currents = (if all_currents kw = Some False then None else Some [2, 2, 3]),
          bit_line_currents = (if all_currents kw = Some False then None else Some [2, 2, 3]),
          word_line_voltages = (if node_voltages kw = Some False then None else Some [2, 2, 3]),
          bit_line_voltages = (if node_voltages kw = Some False then None else Some [2, 2, 3])\<rparr>"
  by (auto simp: compute_unfold example_checked solution_def Let_def
      fst_crossbar_requirements example_heap_cells nrows_def ncols_def matrix_def
      setdefault_def split: option.splits)

text \<open>
  C8 (as amended). For every successful call of \<open>compute\<close> with \<open>m\<close> word lines, \<open>n\<close>
  bit lines and \<open>p\<close> examples, the output currents have shape \<open>p \<times> n\<close>, and every other
  field of the result that is computed has shape \<open>m \<times> n\<close> when \<open>p = 1\<close> and
  \<open>m \<times> n \<times> p\<close> when \<open>p > 1\<close>. The branch currents are None when \<open>all_currents\<close> is False,
  the node voltages are None when \<open>node_voltages\<close> is False; with the default keyword
  arguments every field is computed.
\<close>

theorem compute_result_shapes:
  assumes ok: "snd (compute solution h applied_voltages resistances r_i w b kw) = Inr out"
    and refs: "resistances < next_free h" "applied_voltages < next_free h"
  shows "\<exists>m n p. shape (cells h resistances) = [m, n]
           \<and> shape (cells h applied_voltages) = [m, p] \<and> 0 < p
           \<and> output_currents out = [p, n]
           \<and> device_currents out =
               (if all_currents kw = Some False then None else Some (documented_shape m n p))
           \<and> word_line_currents out =
               (if all_currents kw = Some False then None else Some (documented_shape m n p))
           \<and> bit_line_currents out =
               (if all_currents kw = Some False then None else Some (documented_shape m n p))
           \<and> word_line_voltages out =
               (if node_voltages kw = Some False then None else Some (documented_shape m n p))
           \<and> bit_line_voltages out =
               (if node_voltages kw = Some False then None else Some (documented_shape m n p))"
proof -
  let ?w = "if r_i \<noteq> PNone then r_i else w" and ?b = "if r_i \<noteq> PNone then r_i else b"
  let ?R = "cells h resistances" and ?A = "cells h applied_voltages"
  have A: "(if applied_voltages = next_free h then ?R else ?A) = ?A"
    using refs by simp
  have checked: "snd (crossbar_requirements h resistances applied_voltages ?w ?b) =
      (case crossbar_checks ?R ?A ?w ?b of
         Inl e \<Rightarrow> Inl e
       | Inr u \<Rightarrow> Inr (next_free h, Suc (next_free h)))"
    unfolding snd_crossbar_requirements A ..
  obtain u where u: "crossbar_checks ?R ?A ?w ?b = Inr u"
    using ok unfolding compute_unfold checked
    by (cases "crossbar_checks ?R ?A ?w ?b") simp_all
  from crossbar_checks_shapes [OF u] obtain m n p where
    s: "shape ?R = [m, n]" "shape ?A = [m, p]" and p: "0 < p"
    by blast
  have out: "out =
      \<lparr>output_currents = [p, n],
       device_currents =
         (if all_currents kw = Some False then None else Some (documented_shape m n p)),
       word_line_currents =
         (if all_currents kw = Some False then None else Some (documented_shape m n p)),
       bit_line_currents =
         (if all_currents kw = Some False then None else Some (documented_shape m n p)),
       word_line_voltages =
         (if node_voltages kw = Some False then None else Some (documented_shape m n p)),
       bit_line_voltages =
         (if node_voltages kw = Some False then None else Some (documented_shape m n p))\<rparr>"
    using ok refs s unfolding compute_unfold checked u
    by (auto simp: solution_def Let_def fst_crossbar_requirements nrows_def ncols_def
        setdefault_def documented_shape_def split: option.splits)
  show ?thesis
    using s p by (intro exI [of _ m] exI [of _ n] exI [of _ p]) (simp add: out)
qed

text \<open>The theorem at the example call, with no keyword argument.\<close>

theorem compute_result_shapes_witness:
  "\<exists>out. snd (compute solution  example_heap 1 0
                (PInt 1) PNone PNone no_kwargs) = Inr out
         \<and> output_currents out = [3, 2]
         \<and> device_currents out = Some [2, 2, 3]
         \<and> word_line_currents out = Some [2, 2, 3]
         \<and> bit_line_currents out = Some [2, 2, 3]
         \<and> word_line_voltages out = Some [2, 2, 3]
         \<and> bit_line_voltages out = Some [2, 2, 3]"
proof -
  let ?h = example_heap
  have "\<exists>out. snd (compute solution ?h 1 0 (PInt 1) PNone PNone no_kwargs) = Inr out"
    using example_compute [of PNone PNone no_kwargs] by simp
  then obtain out where
    ok: "snd (compute solution ?h 1 0 (PInt 1) PNone PNone no_kwargs) = Inr out" ..
  have refs: "0 < next_free ?h" "1 < next_free ?h" by (simp_all add: example_heap_cells)
  from compute_result_shapes [OF ok refs] obtain m n p where
    s: "shape (cells ?h 0) = [m, n]" "shape (cells ?h 1) = [m, p]"
    and o: "output_currents out = [p, n]"
      "device_currents out =
         (if all_currents no_kwargs = Some False then None else Some (documented_shape m n p))"
      "word_line_currents out =
         (if all_currents no_kwargs = Some False then None else Some (documented_shape m n p))"
      "bit_line_currents out =
         (if all_currents no_kwargs = Some False then None else Some (documented_shape m n p))"
      "word_line_voltages out =
         (if node_voltages no_kwargs = Some False then None else Some (documented_shape m n p))"
      "bit_line_voltages out =
         (if node_voltages no_kwargs = Some False then None else Some (documented_shape m n p))"
    by blast
  from s have "m = 2" "n = 2" "p = 3" by (simp_all add: example_heap_cells matrix_def)
  with o have "output_currents out = [3, 2]"
    "device_currents out = Some [2, 2, 3]" "word_line_currents out = Some [2, 2, 3]"
    "bit_line_currents out = Some [2, 2, 3]" "word_line_voltages out = Some [2, 2, 3]"
    "bit_line_voltages out = Some [2, 2, 3]"
    by (simp_all add: no_kwargs_def documented_shape_def)
  with ok show ?thesis by blast
qed

text \<open>
  C8 as stated fails: the example call with \<open>node_voltages=False\<close> succeeds, and its two
  voltage fields are None, not arrays of shape \<open>2 \<times> 2 \<times> 3\<close>.
\<close>

theorem suppressed_fields_counterexample:
  "snd (compute solution  example_heap 1 0
          (PInt 1) PNone PNone (no_kwargs\<lparr>node_voltages := Some False\<rparr>)) =
     Inr \<lparr>output_currents = [3, 2],
          device_currents = Some [2, 2, 3],
          word_line_currents = Some [2, 2, 3],
          bit_line_currents = Some [2, 2, 3],
          word_line_voltages = None,
          bit_line_voltages = None\<rparr>"
  by (simp add: example_compute no_kwargs_def)

text \<open>
  C9. \<open>compute\<close> never mutates the caller's arrays: after the call the objects passed as
  \<open>resistances\<close> and \<open>applied_voltages\<close> hold what they held before, whether the call
  raised or returned. Validation copies them, and \<open>extract.solution\<close> is given the copies
  only: the hypothesis on it is that it writes to no object that existed before but the two
  it is given.
\<close>

theorem compute_keeps_inputs:
  assumes frame: "\<forall>h R w b A kw a. a < next_free h \<and> a \<noteq> R \<and> a \<noteq> A \<longrightarrow>
                    cells (fst (sol h R w b A kw)) a = cells h a"
    and refs: "resistances < next_free h" "applied_voltages < next_free h"
  shows "cells (fst (compute sol h applied_voltages resistances r_i w b kw)) resistances
           = cells h resistances
       \<and> cells (fst (compute sol h applied_voltages resistances r_i w b kw)) applied_voltages
           = cells h applied_voltages"
proof -
  let ?w = "if r_i \<noteq> PNone then r_i else w" and ?b = "if r_i \<noteq> PNone then r_i else b"
  let ?c = "crossbar_requirements h resistances applied_voltages ?w ?b"
  have same: "cells (fst ?c) a = cells h a" if "a < next_free h" for a
    using that by (simp add: fst_crossbar_requirements)
  have nf: "next_free (fst ?c) = Suc (Suc (next_free h))"
    by (simp add: fst_crossbar_requirements)
  have "cells (fst (compute sol h applied_voltages resistances r_i w b kw)) a = cells h a"
    if a: "a < next_free h" for a
  proof (cases "snd ?c")
    case (Inl e)
    then show ?thesis using same [OF a] by (simp add: compute_unfold)
  next
    case (Inr refs')
    then have r: "snd ?c = Inr (next_free h, Suc (next_free h))"
      by (auto simp: snd_crossbar_requirements split: sum.splits)
    have "cells (fst (sol (fst ?c) (next_free h) ?w ?b (Suc (next_free h)) kw')) a
            = cells (fst ?c) a" for kw'
      using frame a nf by simp
    then show ?thesis using same [OF a] by (simp add: compute_unfold r)
  qed
  then show ?thesis using refs by simp
qed

text \<open>
  The theorem at the example call, with a solution that empties the two arrays it is
  given: the copies at the addresses 2 and 3 are emptied, the caller's arrays are not.
\<close>

theorem compute_keeps_inputs_witness:
  "cells (fst (compute overwriting_solution  example_heap 1 0
                 (PInt 1) PNone PNone no_kwargs)) 0 = matrix 2 2 [Fin 100, Fin 200, Fin 300, Fin 400]
   \<and> cells (fst (compute overwriting_solution  example_heap 1 0
                 (PInt 1) PNone PNone no_kwargs)) 1 = matrix 2 3 [Fin 5, Fin 6, Fin 7, Fin 8, Fin 9, Fin 10]
   \<and> cells (fst (compute overwriting_solution  example_heap 1 0
                 (PInt 1) PNone PNone no_kwargs)) 2 = matrix 0 0 []
   \<and> cells (fst (compute overwriting_solution  example_heap 1 0
                 (PInt 1) PNone PNone no_kwargs)) 3 = matrix 0 0 []"
proof -
  let ?h = example_heap
  have frame: "\<forall>h R w b A kw a. a < next_free h \<and> a \<noteq> R \<and> a \<noteq> A \<longrightarrow>
                 cells (fst (overwriting_solution h R w b A kw)) a = cells h a"
    by (simp add: overwriting_solution_def)
  have refs: "0 < next_free ?h" "1 < next_free ?h" by (simp_all add: example_heap_cells)
  have copies:
    "cells (fst (compute overwriting_solution ?h 1 0 (PInt 1) PNone PNone no_kwargs)) 2
       = matrix 0 0 []"
    "cells (fst (compute overwriting_solution ?h 1 0 (PInt 1) PNone PNone no_kwargs)) 3
       = matrix 0 0 []"
    by (simp_all add: compute_unfold example_checked overwriting_solution_def)
  show ?thesis
    using compute_keeps_inputs [OF frame refs, of "PInt 1" PNone PNone no_kwargs] copies
    by (simp add: example_heap_cells)
qed

text \<open>
  C10. When \<open>r_i\<close> is not None, \<open>compute\<close> sets both interconnect resistances to \<open>r_i\<close>
  before validation and solving: \<open>crossbar_requirements\<close> is called with \<open>r_i\<close> as both
  resistances, and when it does not raise, \<open>extract.solution\<close> receives the two copies,
  \<open>r_i\<close> as both resistances and the keyword arguments with their defaults. What was passed
  as \<open>r_i_word_line\<close> and \<open>r_i_bit_line\<close> is ignored: the call is the call with both equal
  to \<open>r_i\<close>.
\<close>

theorem compute_r_i_overrides:
  assumes "r_i \<noteq> PNone"
  shows "compute sol h applied_voltages resistances r_i w b kw =
           (case snd (crossbar_requirements h resistances applied_voltages r_i r_i) of
              Inl e \<Rightarrow>
                (fst (crossbar_requirements h resistances applied_voltages r_i r_i), Inl e)
            | Inr (resistances', applied_voltages') \<Rightarrow>
                sol (fst (crossbar_requirements h resistances applied_voltages r_i r_i))
                  resistances' r_i r_i applied_voltages'
                  (kw\<lparr>node_voltages := setdefault (node_voltages kw) True,
                      all_currents := setdefault (all_currents kw) True,
                      verbose := setdefault (verbose kw) 1,
                      show_time := setdefault (show_time kw) True,
                      gap_size := setdefault (gap_size kw) 5\<rparr>))
       \<and> compute sol h applied_voltages resistances r_i w b kw
           = compute sol h applied_voltages resistances r_i r_i r_i kw
       \<and> compute sol h applied_voltages resistances r_i w b kw
           = compute sol h applied_voltages resistances PNone r_i r_i kw"
  using assms by (simp add: compute_unfold)

text \<open>
  The theorem at the example call with \<open>r_i = 1\<close>, a string as \<open>r_i_word_line\<close> and a
  negative \<open>r_i_bit_line\<close>: validation passes on \<open>(1, 1)\<close>, \<open>extract.solution\<close> receives
  the copies at the addresses 2 and 3 with both resistances 1, and the call succeeds.
\<close>

theorem compute_r_i_overrides_witness:
  "compute solution example_heap 1 0 (PInt 1) (PStr ''ignored'') (PInt (- 3)) no_kwargs
     = solution (fst (crossbar_requirements example_heap 0 1 (PInt 1) (PInt 1)))
         2 (PInt 1) (PInt 1) 3
         \<lparr>node_voltages = Some True, all_currents = Some True, verbose = Some 1,
          show_time = Some True, gap_size = Some 5\<rparr>
   \<and> compute solution example_heap 1 0 (PInt 1) (PStr ''ignored'') (PInt (- 3)) no_kwargs
     = compute solution example_heap 1 0 PNone (PInt 1) (PInt 1) no_kwargs
   \<and> (\<exists>out. snd (compute solution example_heap 1 0
                 (PInt 1) (PStr ''ignored'') (PInt (- 3)) no_kwargs) = Inr out)"
proof -
  have r: "PInt 1 \<noteq> PNone" by simp
  note t = compute_r_i_overrides [OF r, where sol = solution and h = example_heap
      and applied_voltages = 1 and resistances = 0 and w = "PStr ''ignored''"
      and b = "PInt (- 3)" and kw = no_kwargs]
  have ck: "snd (crossbar_requirements example_heap 0 1 (PInt 1) (PInt 1)) = Inr (2, 3)"
    using example_checked by simp
  have a: "compute solution example_heap 1 0 (PInt 1) (PStr ''ignored'') (PInt (- 3)) no_kwargs
     = solution (fst (crossbar_requirements example_heap 0 1 (PInt 1) (PInt 1)))
         2 (PInt 1) (PInt 1) 3
         \<lparr>node_voltages = Some True, all_currents = Some True, verbose = Some 1,
          show_time = Some True, gap_size = Some 5\<rparr>"
    unfolding t [THEN conjunct1] ck by (simp add: no_kwargs_def setdefault_def)
  have e: "compute solution example_heap 1 0 (PInt 1) (PStr ''ignored'') (PInt (- 3)) no_kwargs
           = compute solution example_heap 1 0 PNone (PInt 1) (PInt 1) no_kwargs"
    using t by (rule conjunct2 [THEN conjunct2])
  have x: "\<exists>out. snd (compute solution example_heap 1 0
                     (PInt 1) (PStr ''ignored'') (PInt (- 3)) no_kwargs) = Inr out"
    using example_compute [of "PStr ''ignored''" "PInt (- 3)" no_kwargs] by simp
  from a e x show ?thesis by (intro conjI)
qed

end
